theory Spec2Isabelle
  imports Main "HOL-Library.Sublist"
begin

section \<open>Strings, errors and the library the program calls\<close>

text \<open>
  A Python \<open>str\<close> is a sequence of Unicode code points; \<open>len\<close>, indexing, iteration and
  \<open>==\<close> all work on code points. A string is therefore a list of code points, each a
  natural number (\<open>ord\<close> of the character).
\<close>

type_synonym ustring = "nat list"

text \<open>The exceptions the modelled statements can raise.\<close>

datatype error = ValueError | IndexError

text \<open>
  \<open>jp_tutor.py\<close> calls two functions of the Python standard library whose tables are not
  part of the program: \<open>unicodedata.normalize("NFKC", text)\<close> and \<open>str.lower()\<close>. Both
  return a string for every string. They are parameters of the model.
\<close>

record pystd =
  nfkc :: "ustring \<Rightarrow> ustring"
  lower :: "ustring \<Rightarrow> ustring"

text \<open>\<open>ord(ch)\<close> and \<open>chr(i)\<close>; \<open>chr\<close> raises ValueError outside \<open>range(0x110000)\<close>.\<close>

definition ord_py :: "nat \<Rightarrow> int" where
  "ord_py ch = int ch"

definition chr_py :: "int \<Rightarrow> error + nat" where
  "chr_py i = (if 0 \<le> i \<and> i < 0x110000 then Inr (nat i) else Inl ValueError)"

text \<open>
  \<open>xs[i]\<close> on a list of length \<open>n\<close>: the element at \<open>i\<close> for \<open>0 \<le> i < n\<close>, the element at
  \<open>n + i\<close> for \<open>-n \<le> i < 0\<close>, and IndexError for every other \<open>i\<close>.
\<close>

definition index_py :: "'a list \<Rightarrow> int \<Rightarrow> error + 'a" where
  "index_py xs i =
     (if 0 \<le> i \<and> i < int (length xs) then Inr (xs ! nat i)
      else if i < 0 \<and> - int (length xs) \<le> i then Inr (xs ! nat (int (length xs) + i))
      else Inl IndexError)"

section \<open>Utilities\<close>

definition normalize_nfkc :: "pystd \<Rightarrow> ustring \<Rightarrow> ustring" where
  "normalize_nfkc L text = nfkc L text"

text \<open>
  \<open>katakana_to_hiragana\<close>: the \<open>for ch in text\<close> loop, with \<open>converted_chars\<close> as the
  accumulator. \<open>"".join\<close> of one-character strings is the list of their characters.
  The literals are U+30F5, U+3095, U+30F6 and U+3096.
\<close>

fun katakana_loop :: "ustring \<Rightarrow> ustring \<Rightarrow> error + ustring" where
  "katakana_loop [] converted_chars = Inr converted_chars"
| "katakana_loop (ch # rest) converted_chars =
     (let code = ord_py ch in
      if 0x30A1 \<le> code \<and> code \<le> 0x30F3 then
        (case chr_py (code - 0x60) of
           Inl e \<Rightarrow> Inl e
         | Inr c \<Rightarrow> katakana_loop rest (converted_chars @ [c]))
      else if ch = 0x30F5 then katakana_loop rest (converted_chars @ [0x3095])
      else if ch = 0x30F6 then katakana_loop rest (converted_chars @ [0x3096])
      else katakana_loop rest (converted_chars @ [ch]))"

definition katakana_to_hiragana :: "ustring \<Rightarrow> error + ustring" where
  "katakana_to_hiragana text = katakana_loop text []"

definition to_hiragana_lower :: "pystd \<Rightarrow> ustring \<Rightarrow> error + ustring" where
  "to_hiragana_lower L text =
     (case katakana_to_hiragana (normalize_nfkc L text) of
        Inl e \<Rightarrow> Inl e
      | Inr folded \<Rightarrow> Inr (lower L folded))"

text \<open>
  Whitespace as \<open>\s\<close> of the \<open>re\<close> module (for \<open>str\<close> patterns) and \<open>str.strip()\<close> see
  it: the code points for which \<open>str.isspace()\<close> holds.
\<close>

definition is_space :: "nat \<Rightarrow> bool" where
  "is_space c =
     ((0x9 \<le> c \<and> c \<le> 0xD) \<or> (0x1C \<le> c \<and> c \<le> 0x20) \<or> c = 0x85 \<or> c = 0xA0 \<or>
      c = 0x1680 \<or> (0x2000 \<le> c \<and> c \<le> 0x200A) \<or> c = 0x2028 \<or> c = 0x2029 \<or>
      c = 0x202F \<or> c = 0x205F \<or> c = 0x3000)"

text \<open>
  \<open>re.sub(r"\s+", repl, text)\<close>: every maximal run of whitespace is replaced by
  \<open>repl\<close>, scanning from the left.
\<close>

function sub_spaces :: "ustring \<Rightarrow> ustring \<Rightarrow> ustring" where
  "sub_spaces repl [] = []"
| "sub_spaces repl (c # cs) =
     (if is_space c then repl @ sub_spaces repl (dropWhile is_space cs)
      else c # sub_spaces repl cs)"
  by pat_completeness auto
termination
  by (relation "measure (\<lambda>(repl, s). length s)")
     (auto simp: le_imp_less_Suc length_dropWhile_le)

text \<open>\<open>str.strip()\<close> without argument removes leading and trailing whitespace.\<close>

definition strip_py :: "ustring \<Rightarrow> ustring" where
  "strip_py s = rev (dropWhile is_space (rev (dropWhile is_space s)))"

definition collapse_spaces :: "ustring \<Rightarrow> ustring" where
  "collapse_spaces text = strip_py (sub_spaces [0x20] text)"

definition strip_all_spaces :: "ustring \<Rightarrow> ustring" where
  "strip_all_spaces text = sub_spaces [] text"

text \<open>
  \<open>re.split(r"\s+", s)\<close>: the pieces between the maximal whitespace runs, in order,
  with an empty piece where the string starts or ends with whitespace (and \<open>['']\<close> for
  the empty string). \<open>cur\<close> is the piece being read.
\<close>

function split_loop :: "ustring \<Rightarrow> ustring \<Rightarrow> ustring list" where
  "split_loop cur [] = [cur]"
| "split_loop cur (c # cs) =
     (if is_space c then cur # split_loop [] (dropWhile is_space cs)
      else split_loop (cur @ [c]) cs)"
  by pat_completeness auto
termination
  by (relation "measure (\<lambda>(cur, s). length s)")
     (auto simp: le_imp_less_Suc length_dropWhile_le)

definition re_split_spaces :: "ustring \<Rightarrow> ustring list" where
  "re_split_spaces s = split_loop [] s"

text \<open>\<open>re.sub(r"[^a-z]", "", s)\<close> deletes every character outside \<open>a\<close>..\<open>z\<close>.\<close>

definition is_az :: "nat \<Rightarrow> bool" where
  "is_az c = (0x61 \<le> c \<and> c \<le> 0x7A)"

definition sub_non_az :: "ustring \<Rightarrow> ustring" where
  "sub_non_az s = filter is_az s"

section \<open>The regular expressions of the checkers\<close>

text \<open>
  The two patterns of \<open>check_self_intro\<close> are sequences of: an alternation of literal
  strings, a greedy \<open>c*\<close>, \<open>c+\<close> or \<open>c?\<close> over a character class \<open>c\<close>, the capturing
  group \<open>(c+?)\<close> with its non-greedy repetition, and \<open>$\<close>. The classes are \<open>\s\<close>, the dot
  (any character but the newline, since no DOTALL flag is given) and a bracket set.
\<close>

datatype cclass = Space | Dot | OneOf "nat list"

fun in_class :: "cclass \<Rightarrow> nat \<Rightarrow> bool" where
  "in_class Space c = is_space c"
| "in_class Dot c = (c \<noteq> 0xA)"
| "in_class (OneOf cs) c = (c \<in> set cs)"

text \<open>
  \<open>LazyGroup c acc\<close> is the group \<open>(c+?)\<close> with the characters \<open>acc\<close> already taken by
  it; in a pattern \<open>acc\<close> is empty.
\<close>

datatype rx =
    Alt "ustring list"
  | Star cclass
  | Plus cclass
  | Opt cclass
  | LazyGroup cclass ustring
  | Eos

fun rx_size :: "rx \<Rightarrow> nat" where
  "rx_size (Alt as) = Suc (length as)"
| "rx_size _ = 1"

text \<open>
  \<open>re.match\<close> as the backtracking search of the \<open>re\<close> module, anchored at the start of the
  string: alternatives are tried in the order written, a greedy repetition tries the
  longest run first, the non-greedy group the shortest, and the first way that matches the
  whole pattern wins. The result is \<open>None\<close> when nothing matches and otherwise the value
  of \<open>group(1)\<close> (itself \<open>None\<close> for a group that took no part). \<open>$\<close> without MULTILINE
  matches at the end of the string and before a newline that ends it.
\<close>

function rx_match :: "rx list \<Rightarrow> ustring \<Rightarrow> ustring option \<Rightarrow> ustring option option" where
  "rx_match [] s g = Some g"
| "rx_match (Alt [] # r) s g = None"
| "rx_match (Alt (a # as) # r) s g =
     (case (if prefix a s then rx_match r (drop (length a) s) g else None) of
        Some m \<Rightarrow> Some m
      | None \<Rightarrow> rx_match (Alt as # r) s g)"
| "rx_match (Star c # r) s g =
     (case (case s of [] \<Rightarrow> None
            | x # xs \<Rightarrow> if in_class c x then rx_match (Star c # r) xs g else None) of
        Some m \<Rightarrow> Some m
      | None \<Rightarrow> rx_match r s g)"
| "rx_match (Plus c # r) s g =
     (case s of [] \<Rightarrow> None
      | x # xs \<Rightarrow> if in_class c x then rx_match (Star c # r) xs g else None)"
| "rx_match (Opt c # r) s g =
     (case (case s of [] \<Rightarrow> None
            | x # xs \<Rightarrow> if in_class c x then rx_match r xs g else None) of
        Some m \<Rightarrow> Some m
      | None \<Rightarrow> rx_match r s g)"
| "rx_match (LazyGroup c acc # r) s g =
     (case (if acc = [] then None else rx_match r s (Some acc)) of
        Some m \<Rightarrow> Some m
      | None \<Rightarrow>
          (case s of [] \<Rightarrow> None
           | x # xs \<Rightarrow>
               if in_class c x then rx_match (LazyGroup c (acc @ [x]) # r) xs g else None))"
| "rx_match (Eos # r) s g = (if s = [] \<or> s = [0xA] then rx_match r s g else None)"
  by pat_completeness auto
termination
  by (relation "measures [\<lambda>(p, s, g). length s, \<lambda>(p, s, g). sum_list (map rx_size p)]")
     (auto simp: le_less)

declare rx_match.simps [simp del]

text \<open>
  \<open>^(?:watashi-kana|U+79C1|boku-kana|watakushi-kana)\s*U+306F\s*(.+?)\s*desu-kana[U+3002\.]?\s*$\<close>,
  line 97 (\<open>^\<close> is the anchoring of \<open>match\<close>).
\<close>

definition jp_pat :: "rx list" where
  "jp_pat =
     [Alt [[0x308F, 0x305F, 0x3057], [0x79C1], [0x307C, 0x304F],
           [0x308F, 0x305F, 0x304F, 0x3057]],
      Star Space, Alt [[0x306F]], Star Space, LazyGroup Dot [], Star Space,
      Alt [[0x3067, 0x3059]], Opt (OneOf [0x3002, 0x2E]), Star Space, Eos]"

text \<open>\<open>^(?:watashi|boku|watakushi)\s+wa\s+(.+?)\s+desu\.?$\<close>, line 107.\<close>

definition romaji_pat :: "rx list" where
  "romaji_pat =
     [Alt [[0x77, 0x61, 0x74, 0x61, 0x73, 0x68, 0x69], [0x62, 0x6F, 0x6B, 0x75],
           [0x77, 0x61, 0x74, 0x61, 0x6B, 0x75, 0x73, 0x68, 0x69]],
      Plus Space, Alt [[0x77, 0x61]], Plus Space, LazyGroup Dot [], Plus Space,
      Alt [[0x64, 0x65, 0x73, 0x75]], Opt (OneOf [0x2E]), Eos]"

section \<open>Checkers\<close>

text \<open>The string literals of the checkers, as code points.\<close>

definition greeting_correct :: ustring where
  \<comment> \<open>the literal \<open>correct\<close> of \<open>check_greeting\<close> (konnichiha, line 70)\<close>
  "greeting_correct =
     [0x3053, 0x3093, 0x306B, 0x3061, 0x306F]"

definition greeting_mistake :: ustring where
  \<comment> \<open>the literal of line 75, the greeting written with U+308F\<close>
  "greeting_mistake =
     [0x3053, 0x3093, 0x306B, 0x3061, 0x308F]"

definition greeting_romaji :: ustring where
  \<comment> \<open>\<open>"konnichiwa"\<close>, line 81\<close>
  "greeting_romaji =
     [0x6B, 0x6F, 0x6E, 0x6E, 0x69, 0x63, 0x68, 0x69, 0x77, 0x61]"

definition msg_greeting_ok :: ustring where
  \<comment> \<open>the success message, lines 72 and 82\<close>
  "msg_greeting_ok =
     [0xC88B, 0xC544, 0xC694, 0x21, 0x20, 0x3053, 0x3093, 0x306B, 0x3061, 0x306F]"

definition msg_greeting_wa_ha :: ustring where
  \<comment> \<open>the message of line 76: almost right, 'wa' is written with U+306F, then the greeting\<close>
  "msg_greeting_wa_ha =
     [0xAC70, 0xC758, 0x20, 0xB9DE, 0xC558, 0xC5B4, 0xC694, 0x21, 0x20, 0x27, 0x77,
      0x61, 0x27, 0xB294, 0x20, 0x306F, 0xB85C, 0x20, 0xC501, 0xB2C8, 0xB2E4, 0x3A,
      0x20, 0x3053, 0x3093, 0x306B, 0x3061, 0x306F]"

definition msg_greeting_hint :: ustring where
  \<comment> \<open>the generic hint of line 84\<close>
  "msg_greeting_hint =
     [0xD78C, 0xD2B8, 0x3A, 0x20, 0xB0AE, 0x20, 0xC778, 0xC0AC, 0x28, 0x3053, 0x3093,
      0x306B, 0x3061, 0x306F, 0x29, 0x2E, 0x20, 0x27, 0x77, 0x61, 0x27, 0x20, 0xD45C,
      0xAE30, 0xB294, 0x20, 0x306F, 0xB97C, 0x20, 0xC0AC, 0xC6A9, 0xD574, 0xC694, 0x2E]"

definition msg_intro_ok :: ustring where
  \<comment> \<open>the success message of lines 102 and 110\<close>
  "msg_intro_ok =
     [0xC88B, 0xC544, 0xC694, 0x21, 0x20, 0xC790, 0xC5F0, 0xC2A4, 0xB7EC, 0xC6CC,
      0xC694, 0x2E]"

definition msg_intro_pattern :: ustring where
  \<comment> \<open>the failure message of line 112\<close>
  "msg_intro_pattern =
     [0xD328, 0xD134, 0x3A, 0x20, 0x308F, 0x305F, 0x3057, 0x306F, 0x20, 0x5B, 0xC774,
      0xB984, 0x5D, 0x20, 0x3067, 0x3059, 0x3002, 0x20, 0x28, 0x72, 0x6F, 0x6D, 0x61,
      0x6A, 0x69, 0x3A, 0x20, 0x77, 0x61, 0x74, 0x61, 0x73, 0x68, 0x69, 0x20, 0x77,
      0x61, 0x20, 0x5B, 0x6E, 0x61, 0x6D, 0x65, 0x5D, 0x20, 0x64, 0x65, 0x73, 0x75,
      0x29]"

definition vowels_romaji :: ustring where
  \<comment> \<open>\<open>"aiueo"\<close>, line 134\<close>
  "vowels_romaji =
     [0x61, 0x69, 0x75, 0x65, 0x6F]"

definition msg_vowels_ok :: ustring where
  \<comment> \<open>the success message of lines 130 and 135\<close>
  "msg_vowels_ok =
     [0xC644, 0xBCBD, 0xD574, 0xC694, 0x21, 0x20, 0x3042, 0x20, 0x3044, 0x20, 0x3046,
      0x20, 0x3048, 0x20, 0x304A]"

definition msg_vowels_answer :: ustring where
  \<comment> \<open>the generic failure message of line 146\<close>
  "msg_vowels_answer =
     [0xC815, 0xB2F5, 0x3A, 0x20, 0x3042, 0x20, 0x3044, 0x20, 0x3046, 0x20, 0x3048,
      0x20, 0x304A, 0x20, 0x28, 0x72, 0x6F, 0x6D, 0x61, 0x6A, 0x69, 0x3A, 0x20, 0x61,
      0x20, 0x69, 0x20, 0x75, 0x20, 0x65, 0x20, 0x6F, 0x29]"

definition hint_prefix :: ustring where
  \<comment> \<open>the prefix of the positional hint, line 144\<close>
  "hint_prefix =
     [0xD78C, 0xD2B8, 0x3A, 0x20]"

definition hint_nth :: ustring where
  \<comment> \<open>the text between position and expected character, line 142\<close>
  "hint_nth =
     [0xBC88, 0xC9F8, 0xB294, 0x20]"

definition hint_sep :: ustring where
  \<comment> \<open>the separator of \<open>", ".join(wrong)\<close>, line 144\<close>
  "hint_sep =
     [0x2C, 0x20]"

text \<open>
  A checker returns \<open>(ok, message)\<close>, \<open>check_self_intro\<close> also the extracted name or
  \<open>None\<close>; \<open>Inl\<close> stands for an exception leaving the function.
\<close>

type_synonym GreetingCheckResult = "bool \<times> ustring"
type_synonym SelfIntroCheckResult = "bool \<times> ustring \<times> ustring option"
type_synonym VowelsCheckResult = "bool \<times> ustring"

definition check_greeting :: "pystd \<Rightarrow> ustring \<Rightarrow> bool \<Rightarrow> error + GreetingCheckResult" where
  "check_greeting L answer allow_romaji =
     (case to_hiragana_lower L answer of
        Inl e \<Rightarrow> Inl e
      | Inr hira \<Rightarrow>
          (let hira_nospace = strip_all_spaces hira;
               correct = greeting_correct
           in if hira_nospace = correct then Inr (True, msg_greeting_ok)
              else if greeting_mistake = hira_nospace then Inr (False, msg_greeting_wa_ha)
              else if allow_romaji \<and>
                      sub_non_az (lower L (normalize_nfkc L answer)) = greeting_romaji
                then Inr (True, msg_greeting_ok)
              else Inr (False, msg_greeting_hint)))"

text \<open>
  In \<open>check_self_intro\<close>, \<open>if m\<close> holds for every match object and \<open>if name\<close> for every
  string but the empty one (and not for \<open>None\<close>).
\<close>

definition check_self_intro :: "pystd \<Rightarrow> ustring \<Rightarrow> bool \<Rightarrow> error + SelfIntroCheckResult" where
  "check_self_intro L answer allow_romaji =
     (let raw = normalize_nfkc L answer in
      case katakana_to_hiragana raw of
        Inl e \<Rightarrow> Inl e
      | Inr kana \<Rightarrow>
          (case (case rx_match jp_pat (collapse_spaces kana) None of
                   None \<Rightarrow> None
                 | Some None \<Rightarrow> None
                 | Some (Some name) \<Rightarrow> if name \<noteq> [] then Some name else None) of
             Some name \<Rightarrow> Inr (True, msg_intro_ok, Some name)
           | None \<Rightarrow>
               (case (if allow_romaji
                      then rx_match romaji_pat (collapse_spaces (lower L raw)) None
                      else None) of
                  Some name \<Rightarrow> Inr (True, msg_intro_ok, name)
                | None \<Rightarrow> Inr (False, msg_intro_pattern, None))))"

text \<open>\<open>str(idx)\<close> inside the f-string of line 142, for a non-negative \<open>idx\<close>: its decimal digits.\<close>

function str_nat :: "nat \<Rightarrow> ustring" where
  "str_nat n = (if n < 10 then [0x30 + n] else str_nat (n div 10) @ [0x30 + n mod 10])"
  by pat_completeness auto
termination
  by (relation "measure (\<lambda>n. n)") auto

declare str_nat.simps [simp del]

text \<open>\<open>sep.join(xs)\<close>.\<close>

fun join_py :: "ustring \<Rightarrow> ustring list \<Rightarrow> ustring" where
  "join_py sep [] = []"
| "join_py sep [x] = x"
| "join_py sep (x # y # ys) = x @ sep @ join_py sep (y # ys)"

text \<open>
  Lines 124 to 126: the non-empty pieces of the stripped string, and the characters of
  the piece when there is exactly one.
\<close>

definition vowel_tokens :: "ustring \<Rightarrow> error + ustring list" where
  "vowel_tokens hira =
     (let tokens = filter (\<lambda>t. t \<noteq> []) (re_split_spaces (strip_py hira))
      in if length tokens = 1 then
           (case index_py tokens 0 of
              Inl e \<Rightarrow> Inl e
            | Inr t \<Rightarrow> Inr (map (\<lambda>c. [c]) t))
         else Inr tokens)"

definition target :: "ustring list" where
  "target = [[0x3042], [0x3044], [0x3046], [0x3048], [0x304A]]"

text \<open>
  The loop of lines 140 to 142 over \<open>enumerate(zip(tokens, target), start=1)\<close>, with the
  list \<open>wrong\<close> as accumulator.
\<close>

fun wrong_loop :: "nat \<Rightarrow> (ustring \<times> ustring) list \<Rightarrow> ustring list \<Rightarrow> ustring list" where
  "wrong_loop idx [] wrong = wrong"
| "wrong_loop idx ((got, exp) # rest) wrong =
     wrong_loop (idx + 1) rest
       (if got \<noteq> exp then wrong @ [str_nat idx @ hint_nth @ exp] else wrong)"

definition check_vowels :: "pystd \<Rightarrow> ustring \<Rightarrow> bool \<Rightarrow> error + VowelsCheckResult" where
  "check_vowels L answer allow_romaji =
     (let raw = normalize_nfkc L answer in
      case katakana_to_hiragana raw of
        Inl e \<Rightarrow> Inl e
      | Inr hira \<Rightarrow>
          (case vowel_tokens hira of
             Inl e \<Rightarrow> Inl e
           | Inr tokens \<Rightarrow>
               if tokens = target then Inr (True, msg_vowels_ok)
               else if allow_romaji \<and> sub_non_az (lower L raw) = vowels_romaji
                 then Inr (True, msg_vowels_ok)
               else
                 (let wrong = (if length tokens = 5
                               then wrong_loop 1 (zip tokens target) [] else [])
                  in if length tokens = 5 \<and> wrong \<noteq> []
                     then Inr (False, hint_prefix @ join_py hint_sep wrong)
                     else Inr (False, msg_vowels_answer))))"

section \<open>Example inputs and library values\<close>

text \<open>The answers the claims name, as code points.\<close>

definition ex_greeting_halfwidth :: ustring where
  \<comment> \<open>the greeting in half-width katakana, U+FF7A U+FF9D U+FF86 U+FF81 U+FF8A\<close>
  "ex_greeting_halfwidth = [0xFF7A, 0xFF9D, 0xFF86, 0xFF81, 0xFF8A]"

definition ex_greeting_katakana :: ustring where
  \<comment> \<open>the greeting in full-width katakana\<close>
  "ex_greeting_katakana = [0x30B3, 0x30F3, 0x30CB, 0x30C1, 0x30CF]"

definition ex_greeting_mixed :: ustring where
  \<comment> \<open>the mistaken kana greeting, a space, \<open>konnichiwa!!\<close>\<close>
  "ex_greeting_mixed =
     [0x3053, 0x3093, 0x306B, 0x3061, 0x308F, 0x20, 0x6B, 0x6F, 0x6E, 0x6E, 0x69, 0x63,
      0x68, 0x69, 0x77, 0x61, 0x21, 0x21]"

definition ex_intro_bob :: ustring where
  \<comment> \<open>watashi-ha, space, BOBU in katakana, space, desu, U+3002\<close>
  "ex_intro_bob =
     [0x308F, 0x305F, 0x3057, 0x306F, 0x20, 0x30DC, 0x30D6, 0x20, 0x3067, 0x3059, 0x3002]"

definition ex_intro_no_marker :: ustring where
  \<comment> \<open>watashi, space, BOBU in katakana, space, desu: no U+306F after the pronoun\<close>
  "ex_intro_no_marker =
     [0x308F, 0x305F, 0x3057, 0x20, 0x30DC, 0x30D6, 0x20, 0x3067, 0x3059]"

definition ex_intro_no_name :: ustring where
  \<comment> \<open>watashi-ha, space, desu, U+3002: nothing in the name slot\<close>
  "ex_intro_no_name = [0x308F, 0x305F, 0x3057, 0x306F, 0x20, 0x3067, 0x3059, 0x3002]"

definition ex_romaji_no_name :: ustring where
  \<comment> \<open>\<open>watashi wa desu.\<close>: nothing in the name slot of the romanized pattern\<close>
  "ex_romaji_no_name =
     [0x77, 0x61, 0x74, 0x61, 0x73, 0x68, 0x69, 0x20, 0x77, 0x61, 0x20, 0x64, 0x65, 0x73,
      0x75, 0x2E]"

definition ex_vowels_spaced :: ustring where
  \<comment> \<open>a i u e o in hiragana, separated by spaces\<close>
  "ex_vowels_spaced = [0x3042, 0x20, 0x3044, 0x20, 0x3046, 0x20, 0x3048, 0x20, 0x304A]"

definition ex_vowels_contiguous :: ustring where
  \<comment> \<open>a i u e o in hiragana, as one token\<close>
  "ex_vowels_contiguous = [0x3042, 0x3044, 0x3046, 0x3048, 0x304A]"

definition ex_vowels_swapped :: ustring where
  \<comment> \<open>a u i e o in hiragana, separated by spaces\<close>
  "ex_vowels_swapped = [0x3042, 0x20, 0x3046, 0x20, 0x3044, 0x20, 0x3048, 0x20, 0x304A]"

definition ex_dotted_I_horn :: ustring where
  \<comment> \<open>U+0130 (capital I with dot above) followed by U+031B (combining horn)\<close>
  "ex_dotted_I_horn = [0x130, 0x31B]"

text \<open>
  Values of the two library functions, to evaluate the checkers on the examples. On a
  string of ASCII characters, hiragana, katakana U+30A1..U+30F6, U+3002 and U+79C1, NFKC
  changes nothing and \<open>str.lower\<close> changes only \<open>A\<close>..\<open>Z\<close>. Three more values are
  listed: NFKC takes the half-width greeting to the full-width one; \<open>str.lower\<close> takes
  U+0130 U+031B to \<open>i\<close> U+0307 U+031B; and NFKC reorders \<open>i\<close> U+0307 U+031B to
  \<open>i\<close> U+031B U+0307 (canonical ordering: the horn has combining class 216, the dot
  above 230), while it leaves U+0130 U+031B as it is. \<open>sample_lib\<close> stands for the
  library on these strings only.
\<close>

definition lower_ascii :: "nat \<Rightarrow> nat" where
  "lower_ascii c = (if 0x41 \<le> c \<and> c \<le> 0x5A then c + 0x20 else c)"

definition sample_nfkc :: "ustring \<Rightarrow> ustring" where
  "sample_nfkc s =
     (if s = [0xFF7A, 0xFF9D, 0xFF86, 0xFF81, 0xFF8A]
        then [0x30B3, 0x30F3, 0x30CB, 0x30C1, 0x30CF]
      else if s = [0x69, 0x307, 0x31B] then [0x69, 0x31B, 0x307]
      else s)"

definition sample_lower :: "ustring \<Rightarrow> ustring" where
  "sample_lower s =
     (if s = [0x130, 0x31B] then [0x69, 0x307, 0x31B] else map lower_ascii s)"

definition sample_lib :: pystd where
  "sample_lib = \<lparr>nfkc = sample_nfkc, lower = sample_lower\<rparr>"

text \<open>
  The character map the specification describes for \<open>katakanaToHiragana\<close>: the range
  U+30A1..U+30F3 moves down by 0x60, the two small letters are special cases, and every
  other character stays.
\<close>

definition kana_fold_char :: "nat \<Rightarrow> nat" where
  "kana_fold_char c =
     (if 0x30A1 \<le> c \<and> c \<le> 0x30F3 then c - 0x60
      else if c = 0x30F5 then 0x3095
      else if c = 0x30F6 then 0x3096
      else c)"

text \<open>
  A pattern is fresh when none of its groups has taken a character yet, as in \<open>jp_pat\<close>
  and \<open>romaji_pat\<close>; \<open>open_acc\<close> is what the group at the head of a pattern has taken.
\<close>

fun fresh_rx :: "rx \<Rightarrow> bool" where
  "fresh_rx (LazyGroup c acc) = (acc = [])"
| "fresh_rx _ = True"

fun open_acc :: "rx list \<Rightarrow> ustring" where
  "open_acc (LazyGroup c acc # r) = acc"
| "open_acc _ = []"

section \<open>Properties of the utilities\<close>

lemma katakana_loop_map:
  "katakana_loop text acc = Inr (acc @ map kana_fold_char text)"
proof (induction "text" arbitrary: acc)
  case Nil
  show ?case by simp
next
  case (Cons ch rest)
  have shift: "0x30A1 \<le> ch \<Longrightarrow> ch \<le> 0x30F3 \<Longrightarrow>
      chr_py (int ch - 0x60) = Inr (ch - 0x60)"
    by (simp add: chr_py_def nat_diff_distrib')
  show ?case
    by (simp add: Cons.IH ord_py_def kana_fold_char_def shift Let_def)
qed

lemma katakana_to_hiragana_map:
  "katakana_to_hiragana text = Inr (map kana_fold_char text)"
  by (simp add: katakana_to_hiragana_def katakana_loop_map)

lemma filter_not_dropWhile:
  "filter (\<lambda>c. \<not> P c) (dropWhile P xs) = filter (\<lambda>c. \<not> P c) xs"
  by (induction xs) auto

lemma sub_spaces_empty: "sub_spaces [] s = filter (\<lambda>c. \<not> is_space c) s"
  by (induction "[] :: ustring" s rule: sub_spaces.induct) (simp_all add: filter_not_dropWhile)

lemma strip_all_spaces_filter: "strip_all_spaces s = filter (\<lambda>c. \<not> is_space c) s"
  by (simp add: strip_all_spaces_def sub_spaces_empty)

lemma is_az_not_space: "is_az c \<Longrightarrow> \<not> is_space c"
  by (auto simp: is_az_def is_space_def)

lemma filter_az_strip_all: "filter is_az (strip_all_spaces s) = filter is_az s"
proof -
  have "(\<lambda>c. \<not> is_space c \<and> is_az c) = is_az"
    using is_az_not_space by auto
  then show ?thesis by (simp add: strip_all_spaces_filter)
qed

lemma is_az_fold: "is_az (kana_fold_char c) = is_az c"
  unfolding is_az_def kana_fold_char_def by (simp split: if_splits) arith

lemma fold_az: "is_az c \<Longrightarrow> kana_fold_char c = c"
  by (simp add: is_az_def kana_fold_char_def)

lemma filter_az_fold: "filter is_az (map kana_fold_char s) = filter is_az s"
  by (induction s) (simp_all add: is_az_fold fold_az)

lemma kana_fold_char_idem: "kana_fold_char (kana_fold_char c) = kana_fold_char c"
  by (simp add: kana_fold_char_def; arith)

lemma katakana_to_hiragana_idem:
  "katakana_to_hiragana s = Inr k \<Longrightarrow> katakana_to_hiragana k = Inr k"
  by (auto simp: katakana_to_hiragana_map kana_fold_char_idem)

lemma romaji_general:
  assumes k: "katakana_to_hiragana (normalize_nfkc L answer) = Inr k"
    and c: "katakana_to_hiragana (lower L (normalize_nfkc L answer)) = Inr (lower L k)"
    and r: "sub_non_az (lower L (normalize_nfkc L answer)) = greeting_romaji"
  shows "check_greeting L answer True = Inr (True, msg_greeting_ok)"
proof -
  have "filter is_az (strip_all_spaces (lower L k)) = greeting_romaji"
    using c r by (simp add: katakana_to_hiragana_map filter_az_strip_all sub_non_az_def)
       (metis filter_az_fold)
  moreover have "filter is_az greeting_mistake = []"
    by (simp add: greeting_mistake_def is_az_def)
  moreover have "greeting_romaji \<noteq> []"
    by (simp add: greeting_romaji_def)
  ultimately have "strip_all_spaces (lower L k) \<noteq> greeting_mistake"
    by metis
  then show ?thesis
    using k r by (auto simp: check_greeting_def to_hiragana_lower_def Let_def)
qed

lemma index_single: "length xs = 1 \<Longrightarrow> index_py xs 0 = Inr (hd xs)"
  by (cases xs) (simp_all add: index_py_def)

lemma vowel_tokens_total: "\<exists>tokens. vowel_tokens hira = Inr tokens"
  by (simp add: vowel_tokens_def Let_def index_single)

lemma total_greeting:
  "\<exists>ok msg. check_greeting L answer allow_romaji = Inr (ok, msg) \<and> msg \<noteq> []"
  by (auto simp: check_greeting_def to_hiragana_lower_def katakana_to_hiragana_map
      msg_greeting_ok_def msg_greeting_wa_ha_def msg_greeting_hint_def Let_def)

lemma total_self_intro:
  "\<exists>ok msg name. check_self_intro L answer allow_romaji = Inr (ok, msg, name) \<and> msg \<noteq> []"
  by (auto simp: check_self_intro_def katakana_to_hiragana_map
      msg_intro_ok_def msg_intro_pattern_def Let_def split: option.split)

lemma total_vowels:
  "\<exists>ok msg. check_vowels L answer allow_romaji = Inr (ok, msg) \<and> msg \<noteq> []"
proof -
  obtain tokens where "vowel_tokens (map kana_fold_char (normalize_nfkc L answer)) = Inr tokens"
    using vowel_tokens_total by blast
  then show ?thesis
    by (auto simp: check_vowels_def katakana_to_hiragana_map
      msg_vowels_ok_def msg_vowels_answer_def hint_prefix_def Let_def)
qed

lemma upt_0_Suc: "[0..<Suc m] = 0 # map Suc [0..<m]"
  by (simp add: upt_conv_Cons map_Suc_upt del: upt_Suc)

lemma wrong_loop_filter:
  "wrong_loop idx (zip tokens tgt) acc =
     acc @ map (\<lambda>i. str_nat (idx + i) @ hint_nth @ tgt ! i)
             (filter (\<lambda>i. tokens ! i \<noteq> tgt ! i) [0..<min (length tokens) (length tgt)])"
proof (induction tokens arbitrary: idx tgt acc)
  case Nil
  show ?case by simp
next
  case (Cons t ts)
  show ?case
  proof (cases tgt)
    case Nil
    then show ?thesis by simp
  next
    case (Cons e es)
    show ?thesis
      unfolding Cons
      by (simp add: Cons.IH upt_0_Suc filter_map comp_def del: upt_Suc)
  qed
qed

lemma mismatch_exists:
  assumes "length tokens = 5" "tokens \<noteq> target"
  shows "filter (\<lambda>i. tokens ! i \<noteq> target ! i) [0..<5] \<noteq> []"
proof -
  have "length target = 5" by (simp add: target_def)
  with assms obtain i where "i < 5" "tokens ! i \<noteq> target ! i"
    by (auto simp: list_eq_iff_nth_eq)
  then have "i \<in> set (filter (\<lambda>i. tokens ! i \<noteq> target ! i) [0..<5])"
    by simp
  then show ?thesis by (metis empty_iff empty_set)
qed

lemma vowels_hint_general:
  assumes h: "katakana_to_hiragana (normalize_nfkc L answer) = Inr hira"
    and t: "vowel_tokens hira = Inr tokens"
    and l: "length tokens = 5" and n: "tokens \<noteq> target"
  shows "check_vowels L answer False =
     Inr (False, hint_prefix @ join_py hint_sep
        (map (\<lambda>i. str_nat (i + 1) @ hint_nth @ target ! i)
             (filter (\<lambda>i. tokens ! i \<noteq> target ! i) [0..<5])))"
proof -
  have lt: "length target = 5" by (simp add: target_def)
  have w: "wrong_loop 1 (zip tokens target) [] =
      map (\<lambda>i. str_nat (i + 1) @ hint_nth @ target ! i)
          (filter (\<lambda>i. tokens ! i \<noteq> target ! i) [0..<5])"
    by (simp add: wrong_loop_filter l lt add.commute del: upt_Suc)
  have ne: "wrong_loop 1 (zip tokens target) [] \<noteq> []"
    unfolding w using mismatch_exists [OF l n] by simp
  show ?thesis
    using h t l n ne by (simp add: check_vowels_def Let_def w del: One_nat_def)
qed

lemma lower_ascii_idem: "lower_ascii (lower_ascii c) = lower_ascii c"
  by (simp add: lower_ascii_def)

lemma lower_ascii_fold: "lower_ascii (kana_fold_char c) = kana_fold_char (lower_ascii c)"
  by (simp add: lower_ascii_def kana_fold_char_def; arith)

lemma map_lower_ascii_special:
  "map lower_ascii s = [0x130, 0x31B] \<Longrightarrow> s = [0x130, 0x31B]"
  by (auto simp: lower_ascii_def map_eq_Cons_conv split: if_splits)

lemma kana_fold_char_special:
  "kana_fold_char c = 0x130 \<Longrightarrow> c = 0x130" "kana_fold_char c = 0x31B \<Longrightarrow> c = 0x31B"
  by (simp_all add: kana_fold_char_def split: if_splits; arith)+

lemma map_fold_special:
  "(map kana_fold_char s = [0x130, 0x31B]) = (s = [0x130, 0x31B])"
proof
  assume "map kana_fold_char s = [0x130, 0x31B]"
  then obtain a b where "s = [a, b]" "kana_fold_char a = 0x130" "kana_fold_char b = 0x31B"
    by (auto simp: map_eq_Cons_conv)
  then show "s = [0x130, 0x31B]"
    by (simp add: kana_fold_char_special)
next
  assume "s = [0x130, 0x31B]"
  then show "map kana_fold_char s = [0x130, 0x31B]"
    by (simp add: kana_fold_char_def)
qed

lemma sample_lower_idem: "lower sample_lib (lower sample_lib s) = lower sample_lib s"
  using map_lower_ascii_special [of s]
  by (auto simp: sample_lib_def sample_lower_def lower_ascii_idem lower_ascii_def)

lemma sample_lower_fold:
  assumes "katakana_to_hiragana s = Inr k"
  shows "katakana_to_hiragana (lower sample_lib s) = Inr (lower sample_lib k)"
proof -
  have k: "k = map kana_fold_char s"
    using assms by (simp add: katakana_to_hiragana_map)
  show ?thesis
  proof (cases "s = [0x130, 0x31B]")
    case True
    then have "k = [0x130, 0x31B]"
      using k map_fold_special [of s] by simp
    with True show ?thesis
      by (simp add: katakana_to_hiragana_map sample_lib_def sample_lower_def kana_fold_char_def)
  next
    case False
    then have "k \<noteq> [0x130, 0x31B]"
      using k map_fold_special [of s] by simp
    with False show ?thesis
      by (simp add: k katakana_to_hiragana_map sample_lib_def sample_lower_def lower_ascii_fold)
  qed
qed

section \<open>What the group captures\<close>

lemma open_acc_fresh: "list_all fresh_rx r \<Longrightarrow> open_acc r = []"
  by (induction r rule: open_acc.induct) simp_all

lemma fresh_tl: "list_all fresh_rx r \<Longrightarrow> list_all fresh_rx (tl r)"
  by (cases r) simp_all

lemma sublist_drop_trans:
  assumes "sublist u (drop n s)"
  shows "sublist u s"
proof -
  from assms obtain ps ss where "drop n s = ps @ u @ ss"
    by (auto simp: sublist_def)
  then have "s = (take n s @ ps) @ u @ ss"
    by (metis append_assoc append_take_drop_id)
  then show ?thesis
    unfolding sublist_def by blast
qed

lemma sublist_ConsI: "sublist u xs \<Longrightarrow> sublist u (x # xs)"
  by (simp add: sublist_Cons_right)

text \<open>What a capture can be, given one more step of the search.\<close>

lemma capture_weaken:
  assumes "g = Some name \<or> sublist name s' \<or> (\<exists>u. prefix u s' \<and> name = open_acc r @ u)"
    and "list_all fresh_rx r" and "\<And>u. sublist u s' \<Longrightarrow> sublist u s"
  shows "g = Some name \<or> sublist name s \<or> (\<exists>u. prefix u s \<and> name = [] @ u)"
  using assms open_acc_fresh [of r] by auto

lemma rx_match_capture:
  "rx_match p s g = Some (Some name) \<Longrightarrow> list_all fresh_rx (tl p) \<Longrightarrow>
   g = Some name \<or> sublist name s \<or> (\<exists>u. prefix u s \<and> name = open_acc p @ u)"
proof (induction p s g rule: rx_match.induct)
  case (1 s g)
  then show ?case by (simp add: rx_match.simps)
next
  case (2 r s g)
  then show ?case by (simp add: rx_match.simps)
next
  case (3 a as r s g)
  let ?first = "if prefix a s then rx_match r (drop (length a) s) g else None"
  have e: "rx_match (Alt (a # as) # r) s g =
      (case ?first of Some m \<Rightarrow> Some m | None \<Rightarrow> rx_match (Alt as # r) s g)"
    by (rule rx_match.simps)
  have fr: "list_all fresh_rx r" using "3.prems"(2) by simp
  show ?case
  proof (cases ?first)
    case None
    then have "rx_match (Alt as # r) s g = Some (Some name)"
      using "3.prems"(1) by (simp only: e option.case)
    then show ?thesis
      using "3.IH"(2) [OF None] "3.prems"(2) by simp
  next
    case (Some m)
    then have pa: "prefix a s" and mm: "rx_match r (drop (length a) s) g = Some (Some name)"
      using "3.prems"(1) by (auto simp only: e option.case split: if_splits)
    have "g = Some name \<or> sublist name (drop (length a) s) \<or>
        (\<exists>u. prefix u (drop (length a) s) \<and> name = open_acc r @ u)"
      using "3.IH"(1) [OF pa mm] fr fresh_tl by blast
    then show ?thesis
      using capture_weaken [OF _ fr, of g name "drop (length a) s" s] sublist_drop_trans
      by auto
  qed
next
  case (4 c r s g)
  let ?first = "(case s of [] \<Rightarrow> None
            | x # xs \<Rightarrow> if in_class c x then rx_match (Star c # r) xs g else None)"
  have e: "rx_match (Star c # r) s g =
      (case ?first of Some m \<Rightarrow> Some m | None \<Rightarrow> rx_match r s g)"
    by (rule rx_match.simps)
  have fr: "list_all fresh_rx r" using "4.prems"(2) by simp
  show ?case
  proof (cases ?first)
    case None
    then have "rx_match r s g = Some (Some name)"
      using "4.prems"(1) by (simp only: e option.case)
    then have "g = Some name \<or> sublist name s \<or> (\<exists>u. prefix u s \<and> name = open_acc r @ u)"
      using "4.IH"(2) [OF None] fr fresh_tl by blast
    then show ?thesis
      using capture_weaken [OF _ fr, of g name s s] by auto
  next
    case (Some m)
    then have "?first = Some (Some name)"
      using "4.prems"(1) by (simp only: e option.case)
    then obtain x xs where s: "s = x # xs" and ic: "in_class c x"
      and mm: "rx_match (Star c # r) xs g = Some (Some name)"
      by (cases s) (auto split: if_splits)
    have "g = Some name \<or> sublist name xs \<or> (\<exists>u. prefix u xs \<and> name = [] @ u)"
      using "4.IH"(1) [OF s ic mm] "4.prems"(2) by simp
    then show ?thesis
      unfolding s by (auto intro: sublist_ConsI)
  qed
next
  case (5 c r s g)
  have e: "rx_match (Plus c # r) s g =
      (case s of [] \<Rightarrow> None
       | x # xs \<Rightarrow> if in_class c x then rx_match (Star c # r) xs g else None)"
    by (rule rx_match.simps)
  from "5.prems"(1) obtain x xs where s: "s = x # xs" and ic: "in_class c x"
    and mm: "rx_match (Star c # r) xs g = Some (Some name)"
    unfolding e by (cases s) (auto split: if_splits)
  have "g = Some name \<or> sublist name xs \<or> (\<exists>u. prefix u xs \<and> name = [] @ u)"
    using "5.IH" [OF s ic mm] "5.prems"(2) by simp
  then show ?case
    unfolding s by (auto intro: sublist_ConsI)
next
  case (6 c r s g)
  let ?first = "(case s of [] \<Rightarrow> None
            | x # xs \<Rightarrow> if in_class c x then rx_match r xs g else None)"
  have e: "rx_match (Opt c # r) s g =
      (case ?first of Some m \<Rightarrow> Some m | None \<Rightarrow> rx_match r s g)"
    by (rule rx_match.simps)
  have fr: "list_all fresh_rx r" using "6.prems"(2) by simp
  show ?case
  proof (cases ?first)
    case None
    then have "rx_match r s g = Some (Some name)"
      using "6.prems"(1) by (simp only: e option.case)
    then have "g = Some name \<or> sublist name s \<or> (\<exists>u. prefix u s \<and> name = open_acc r @ u)"
      using "6.IH"(2) [OF None] fr fresh_tl by blast
    then show ?thesis
      using capture_weaken [OF _ fr, of g name s s] by auto
  next
    case (Some m)
    then have "?first = Some (Some name)"
      using "6.prems"(1) by (simp only: e option.case)
    then obtain x xs where s: "s = x # xs" and ic: "in_class c x"
      and mm: "rx_match r xs g = Some (Some name)"
      by (cases s) (auto split: if_splits)
    have ih: "g = Some name \<or> sublist name xs \<or> (\<exists>u. prefix u xs \<and> name = open_acc r @ u)"
      using "6.IH"(1) [OF s ic mm] fr fresh_tl by blast
    have "g = Some name \<or> sublist name (x # xs) \<or> (\<exists>u. prefix u (x # xs) \<and> name = [] @ u)"
      by (rule capture_weaken [OF ih fr]) (rule sublist_ConsI)
    then show ?thesis
      unfolding s by auto
  qed
next
  case (7 c acc r s g)
  let ?first = "(if acc = [] then None else rx_match r s (Some acc))"
  have e: "rx_match (LazyGroup c acc # r) s g =
     (case ?first of
        Some m \<Rightarrow> Some m
      | None \<Rightarrow>
          (case s of [] \<Rightarrow> None
           | x # xs \<Rightarrow>
               if in_class c x then rx_match (LazyGroup c (acc @ [x]) # r) xs g else None))"
    by (rule rx_match.simps)
  have fr: "list_all fresh_rx r" using "7.prems"(2) by simp
  show ?case
  proof (cases ?first)
    case None
    then have "(case s of [] \<Rightarrow> None
           | x # xs \<Rightarrow>
               if in_class c x then rx_match (LazyGroup c (acc @ [x]) # r) xs g else None)
        = Some (Some name)"
      using "7.prems"(1) by (simp only: e option.case)
    then obtain x xs where s: "s = x # xs" and ic: "in_class c x"
      and mm: "rx_match (LazyGroup c (acc @ [x]) # r) xs g = Some (Some name)"
      by (cases s) (auto split: if_splits)
    have "g = Some name \<or> sublist name xs \<or> (\<exists>u. prefix u xs \<and> name = (acc @ [x]) @ u)"
      using "7.IH"(2) [OF None s ic mm] "7.prems"(2) by simp
    then show ?thesis
      unfolding s by (auto intro: sublist_ConsI)
  next
    case (Some m)
    then have a: "acc \<noteq> []" and mm: "rx_match r s (Some acc) = Some (Some name)"
      using "7.prems"(1) by (auto simp only: e option.case split: if_splits)
    have "Some acc = Some name \<or> sublist name s \<or> (\<exists>u. prefix u s \<and> name = open_acc r @ u)"
      using "7.IH"(1) [OF a mm] fr fresh_tl by blast
    then show ?thesis
      using fr open_acc_fresh [of r] by auto
  qed
next
  case (8 r s g)
  have e: "rx_match (Eos # r) s g = (if s = [] \<or> s = [0xA] then rx_match r s g else None)"
    by (rule rx_match.simps)
  have fr: "list_all fresh_rx r" using "8.prems"(2) by simp
  from "8.prems"(1) have c: "s = [] \<or> s = [0xA]" and mm: "rx_match r s g = Some (Some name)"
    unfolding e by (auto split: if_splits)
  have "g = Some name \<or> sublist name s \<or> (\<exists>u. prefix u s \<and> name = open_acc r @ u)"
    using "8.IH" [OF c mm] fr fresh_tl by blast
  then show ?case
    using capture_weaken [OF _ fr, of g name s s] by auto
qed

section \<open>The checkers on the example answers\<close>

lemmas eval_defs = check_greeting_def check_self_intro_def check_vowels_def to_hiragana_lower_def
  normalize_nfkc_def katakana_to_hiragana_map kana_fold_char_def collapse_spaces_def strip_py_def
  strip_all_spaces_def is_space_def jp_pat_def romaji_pat_def sub_non_az_def is_az_def
  vowel_tokens_def re_split_spaces_def index_py_def target_def rx_match.simps Let_def

lemmas sample_defs = sample_lib_def sample_nfkc_def sample_lower_def lower_ascii_def

lemma str_nat_digit: "n < 10 \<Longrightarrow> str_nat n = [0x30 + n]"
  by (simp add: str_nat.simps)

lemma greeting_example_correct:
  "nfkc L greeting_correct = greeting_correct \<Longrightarrow>
   lower L greeting_correct = greeting_correct \<Longrightarrow>
   check_greeting L greeting_correct False = Inr (True, msg_greeting_ok)"
  by (simp add: eval_defs greeting_correct_def)

lemma greeting_example_halfwidth:
  "nfkc L ex_greeting_halfwidth = ex_greeting_katakana \<Longrightarrow>
   lower L greeting_correct = greeting_correct \<Longrightarrow>
   check_greeting L ex_greeting_halfwidth False = Inr (True, msg_greeting_ok)"
  by (simp add: eval_defs greeting_correct_def ex_greeting_katakana_def)

lemma intro_example_bob:
  "nfkc L ex_intro_bob = ex_intro_bob \<Longrightarrow>
   check_self_intro L ex_intro_bob False = Inr (True, msg_intro_ok, Some [0x307C, 0x3076])"
  by (simp add: eval_defs ex_intro_bob_def)

lemma intro_example_no_marker:
  "nfkc L ex_intro_no_marker = ex_intro_no_marker \<Longrightarrow>
   check_self_intro L ex_intro_no_marker False = Inr (False, msg_intro_pattern, None)"
  by (simp add: eval_defs ex_intro_no_marker_def)

lemma intro_example_no_name:
  "nfkc L ex_intro_no_name = ex_intro_no_name \<Longrightarrow>
   check_self_intro L ex_intro_no_name False = Inr (True, msg_intro_ok, Some [0x20])"
  by (simp add: eval_defs ex_intro_no_name_def)

lemma intro_example_romaji_no_name:
  "nfkc L ex_romaji_no_name = ex_romaji_no_name \<Longrightarrow>
   lower L ex_romaji_no_name = ex_romaji_no_name \<Longrightarrow>
   check_self_intro L ex_romaji_no_name True = Inr (False, msg_intro_pattern, None)"
  by (simp add: eval_defs ex_romaji_no_name_def)

lemma vowels_example_spaced:
  "nfkc L ex_vowels_spaced = ex_vowels_spaced \<Longrightarrow>
   check_vowels L ex_vowels_spaced False = Inr (True, msg_vowels_ok)"
  by (simp add: eval_defs ex_vowels_spaced_def)

lemma vowels_example_contiguous:
  "nfkc L ex_vowels_contiguous = ex_vowels_contiguous \<Longrightarrow>
   check_vowels L ex_vowels_contiguous False = Inr (True, msg_vowels_ok)"
  by (simp add: eval_defs ex_vowels_contiguous_def)

lemma vowels_example_swapped:
  "nfkc L ex_vowels_swapped = ex_vowels_swapped \<Longrightarrow>
   check_vowels L ex_vowels_swapped False =
     Inr (False, hint_prefix @ [0x32] @ hint_nth @ [0x3044] @ hint_sep @ [0x33] @ hint_nth @ [0x3046])"
  by (simp add: eval_defs ex_vowels_swapped_def str_nat_digit)

lemma greeting_example_mixed:
  "nfkc L ex_greeting_mixed = ex_greeting_mixed \<Longrightarrow>
   lower L ex_greeting_mixed = ex_greeting_mixed \<Longrightarrow>
   check_greeting L ex_greeting_mixed True = Inr (True, msg_greeting_ok)"
  by (simp add: eval_defs ex_greeting_mixed_def greeting_correct_def greeting_mistake_def greeting_romaji_def)

lemma wa_ha_message_quotes_wa: "sublist [0x27, 0x77, 0x61, 0x27] msg_greeting_wa_ha"
proof -
  have "msg_greeting_wa_ha =
      take 9 msg_greeting_wa_ha @ [0x27, 0x77, 0x61, 0x27] @ drop 13 msg_greeting_wa_ha"
    by (simp add: msg_greeting_wa_ha_def)
  then show ?thesis by (metis sublist_appendI)
qed

lemma wa_ha_message_facts:
  "0x306F \<in> set msg_greeting_wa_ha \<and> suffix greeting_correct msg_greeting_wa_ha \<and>
   msg_greeting_wa_ha \<noteq> msg_greeting_hint"
  by (simp add: msg_greeting_wa_ha_def msg_greeting_hint_def greeting_correct_def suffix_def)

section \<open>The claims\<close>

text \<open>
  Claim C1. For every input string, \<open>katakana_to_hiragana\<close> returns (it never raises) a
  string of the same length in which each character with code point in U+30A1..U+30F3 is
  replaced by the character 0x60 below it, U+30F5 by U+3095, U+30F6 by U+3096, and every
  other character is the input's.
\<close>

theorem katakana_to_hiragana_chars:
  "\<exists>out. katakana_to_hiragana text = Inr out \<and> length out = length text \<and>
     (\<forall>i < length text.
        (0x30A1 \<le> text ! i \<and> text ! i \<le> 0x30F3 \<longrightarrow> out ! i + 0x60 = text ! i) \<and>
        (text ! i = 0x30F5 \<longrightarrow> out ! i = 0x3095) \<and>
        (text ! i = 0x30F6 \<longrightarrow> out ! i = 0x3096) \<and>
        (\<not> (0x30A1 \<le> text ! i \<and> text ! i \<le> 0x30F3) \<and> text ! i \<noteq> 0x30F5 \<and> text ! i \<noteq> 0x30F6
           \<longrightarrow> out ! i = text ! i))"
  by (simp add: katakana_to_hiragana_map kana_fold_char_def)

theorem katakana_to_hiragana_chars_witness:
  "katakana_to_hiragana [0x30DC, 0x30F5, 0x30F6, 0x79C1, 0x3042] =
     Inr [0x307C, 0x3095, 0x3096, 0x79C1, 0x3042]"
proof -
  let ?t = "[0x30DC, 0x30F5, 0x30F6, 0x79C1, 0x3042] :: ustring"
  from katakana_to_hiragana_chars [of ?t] obtain out where
    r: "katakana_to_hiragana ?t = Inr out" and l: "length out = length ?t" and
    e: "\<forall>i < length ?t.
        (0x30A1 \<le> ?t ! i \<and> ?t ! i \<le> 0x30F3 \<longrightarrow> out ! i + 0x60 = ?t ! i) \<and>
        (?t ! i = 0x30F5 \<longrightarrow> out ! i = 0x3095) \<and>
        (?t ! i = 0x30F6 \<longrightarrow> out ! i = 0x3096) \<and>
        (\<not> (0x30A1 \<le> ?t ! i \<and> ?t ! i \<le> 0x30F3) \<and> ?t ! i \<noteq> 0x30F5 \<and> ?t ! i \<noteq> 0x30F6
           \<longrightarrow> out ! i = ?t ! i)"
    by (elim exE conjE)
  from l obtain a b c d f where o: "out = [a, b, c, d, f]"
    by (auto simp: length_Suc_conv)
  have "a = 0x307C" using e [rule_format, of 0] by (simp add: o)
  moreover have "b = 0x3095" using e [rule_format, of 1] by (simp add: o)
  moreover have "c = 0x3096" using e [rule_format, of 2] by (simp add: o)
  moreover have "d = 0x79C1" using e [rule_format, of 3] by (simp add: o)
  moreover have "f = 0x3042" using e [rule_format, of 4] by (simp add: o)
  ultimately show ?thesis using r o by simp
qed

text \<open>
  Claim C2. Whatever \<open>allow_romaji\<close> is, an answer whose comparable form (NFKC, kana
  fold, lower case) without whitespace is the greeting \<open>greeting_correct\<close> passes
  \<open>check_greeting\<close>. The greeting itself passes, given that the library leaves it
  unchanged, and so does the half-width katakana greeting, given that NFKC takes it to
  the full-width katakana greeting.
\<close>

theorem check_greeting_accepts_correct:
  "(\<forall>answer allow_romaji hira.
      to_hiragana_lower L answer = Inr hira \<and> strip_all_spaces hira = greeting_correct \<longrightarrow>
      check_greeting L answer allow_romaji = Inr (True, msg_greeting_ok)) \<and>
   (nfkc L greeting_correct = greeting_correct \<and> lower L greeting_correct = greeting_correct \<longrightarrow>
      check_greeting L greeting_correct False = Inr (True, msg_greeting_ok)) \<and>
   (nfkc L ex_greeting_halfwidth = ex_greeting_katakana \<and>
    lower L greeting_correct = greeting_correct \<longrightarrow>
      check_greeting L ex_greeting_halfwidth False = Inr (True, msg_greeting_ok))"
proof (intro conjI allI impI)
  fix answer allow_romaji hira
  assume "to_hiragana_lower L answer = Inr hira \<and> strip_all_spaces hira = greeting_correct"
  then show "check_greeting L answer allow_romaji = Inr (True, msg_greeting_ok)"
    by (simp add: check_greeting_def)
next
  assume "nfkc L greeting_correct = greeting_correct \<and>
    lower L greeting_correct = greeting_correct"
  then show "check_greeting L greeting_correct False = Inr (True, msg_greeting_ok)"
    by (simp add: greeting_example_correct)
next
  assume "nfkc L ex_greeting_halfwidth = ex_greeting_katakana \<and>
    lower L greeting_correct = greeting_correct"
  then show "check_greeting L ex_greeting_halfwidth False = Inr (True, msg_greeting_ok)"
    by (simp add: greeting_example_halfwidth)
qed

theorem check_greeting_accepts_correct_witness:
  "to_hiragana_lower sample_lib ex_greeting_katakana = Inr greeting_correct \<and>
   strip_all_spaces greeting_correct = greeting_correct \<and>
   check_greeting sample_lib ex_greeting_katakana True = Inr (True, msg_greeting_ok) \<and>
   nfkc sample_lib greeting_correct = greeting_correct \<and>
   lower sample_lib greeting_correct = greeting_correct \<and>
   check_greeting sample_lib greeting_correct False = Inr (True, msg_greeting_ok) \<and>
   nfkc sample_lib ex_greeting_halfwidth = ex_greeting_katakana \<and>
   check_greeting sample_lib ex_greeting_halfwidth False = Inr (True, msg_greeting_ok)"
proof -
  have a: "to_hiragana_lower sample_lib ex_greeting_katakana = Inr greeting_correct"
    by (simp add: eval_defs sample_defs ex_greeting_katakana_def greeting_correct_def)
  have b: "strip_all_spaces greeting_correct = greeting_correct"
    by (simp add: eval_defs greeting_correct_def)
  have c: "nfkc sample_lib greeting_correct = greeting_correct"
    by (simp add: sample_defs greeting_correct_def)
  have d: "lower sample_lib greeting_correct = greeting_correct"
    by (simp add: sample_defs greeting_correct_def)
  have e: "nfkc sample_lib ex_greeting_halfwidth = ex_greeting_katakana"
    by (simp add: sample_defs ex_greeting_halfwidth_def ex_greeting_katakana_def)
  note th = check_greeting_accepts_correct [of sample_lib]
  have "check_greeting sample_lib ex_greeting_katakana True = Inr (True, msg_greeting_ok)"
    using th a b by blast
  moreover have "check_greeting sample_lib greeting_correct False = Inr (True, msg_greeting_ok)"
    using th c d by blast
  moreover have
    "check_greeting sample_lib ex_greeting_halfwidth False = Inr (True, msg_greeting_ok)"
    using th e d by blast
  ultimately show ?thesis
    using a b c d e by blast
qed

text \<open>
  Claim C3. Whatever \<open>allow_romaji\<close> is, an answer whose comparable form without
  whitespace is \<open>greeting_mistake\<close> (the greeting ending in U+308F) fails
  \<open>check_greeting\<close> with the message of line 76. That message quotes \<open>'wa'\<close>, contains
  U+306F, ends with the correct greeting and is not the generic hint.
\<close>

theorem check_greeting_rejects_wa:
  "to_hiragana_lower L answer = Inr hira \<Longrightarrow> strip_all_spaces hira = greeting_mistake \<Longrightarrow>
   check_greeting L answer allow_romaji = Inr (False, msg_greeting_wa_ha) \<and>
   sublist [0x27, 0x77, 0x61, 0x27] msg_greeting_wa_ha \<and>
   0x306F \<in> set msg_greeting_wa_ha \<and> suffix greeting_correct msg_greeting_wa_ha \<and>
   msg_greeting_wa_ha \<noteq> msg_greeting_hint"
proof -
  assume h: "to_hiragana_lower L answer = Inr hira"
    and m: "strip_all_spaces hira = greeting_mistake"
  have "greeting_mistake \<noteq> greeting_correct"
    by (simp add: greeting_mistake_def greeting_correct_def)
  then have "check_greeting L answer allow_romaji = Inr (False, msg_greeting_wa_ha)"
    using h m by (simp add: check_greeting_def)
  then show ?thesis
    using wa_ha_message_quotes_wa wa_ha_message_facts by blast
qed

theorem check_greeting_rejects_wa_witness:
  "to_hiragana_lower sample_lib greeting_mistake = Inr greeting_mistake \<and>
   strip_all_spaces greeting_mistake = greeting_mistake \<and>
   check_greeting sample_lib greeting_mistake False = Inr (False, msg_greeting_wa_ha) \<and>
   check_greeting sample_lib greeting_mistake True = Inr (False, msg_greeting_wa_ha)"
proof -
  have a: "to_hiragana_lower sample_lib greeting_mistake = Inr greeting_mistake"
    by (simp add: eval_defs sample_defs greeting_mistake_def)
  have b: "strip_all_spaces greeting_mistake = greeting_mistake"
    by (simp add: eval_defs greeting_mistake_def)
  show ?thesis
    using a b check_greeting_rejects_wa [OF a b, of False]
      check_greeting_rejects_wa [OF a b, of True]
    by blast
qed

text \<open>
  Claim C4. The answer \<open>ex_intro_bob\<close> passes \<open>check_self_intro\<close> without romaji, given
  that NFKC leaves it unchanged, and the name returned is U+307C U+3076, what
  \<open>katakana_to_hiragana\<close> makes of the katakana name. In general, when the Japanese
  pattern matches the normalized, folded and whitespace-collapsed answer with a
  non-empty group, the checker passes and returns the group, which is a contiguous part
  of that string.
\<close>

theorem check_self_intro_returns_name:
  "(nfkc L ex_intro_bob = ex_intro_bob \<longrightarrow>
      check_self_intro L ex_intro_bob False = Inr (True, msg_intro_ok, Some [0x307C, 0x3076]) \<and>
      katakana_to_hiragana [0x30DC, 0x30D6] = Inr [0x307C, 0x3076]) \<and>
   (\<forall>answer allow_romaji kana name.
      katakana_to_hiragana (normalize_nfkc L answer) = Inr kana \<and>
      rx_match jp_pat (collapse_spaces kana) None = Some (Some name) \<and> name \<noteq> [] \<longrightarrow>
      check_self_intro L answer allow_romaji = Inr (True, msg_intro_ok, Some name) \<and>
      sublist name (collapse_spaces kana))"
proof (intro conjI allI impI)
  assume "nfkc L ex_intro_bob = ex_intro_bob"
  then show "check_self_intro L ex_intro_bob False =
      Inr (True, msg_intro_ok, Some [0x307C, 0x3076])"
    by (rule intro_example_bob)
next
  show "katakana_to_hiragana [0x30DC, 0x30D6] = Inr [0x307C, 0x3076]"
    by (simp add: katakana_to_hiragana_map kana_fold_char_def)
next
  fix answer allow_romaji kana name
  assume "katakana_to_hiragana (normalize_nfkc L answer) = Inr kana \<and>
    rx_match jp_pat (collapse_spaces kana) None = Some (Some name) \<and> name \<noteq> []"
  then show "check_self_intro L answer allow_romaji = Inr (True, msg_intro_ok, Some name)"
    by (simp add: check_self_intro_def Let_def)
next
  fix answer allow_romaji kana name
  assume "katakana_to_hiragana (normalize_nfkc L answer) = Inr kana \<and>
    rx_match jp_pat (collapse_spaces kana) None = Some (Some name) \<and> name \<noteq> []"
  then have "rx_match jp_pat (collapse_spaces kana) None = Some (Some name)"
    by simp
  from rx_match_capture [OF this] show "sublist name (collapse_spaces kana)"
    by (auto simp: jp_pat_def)
qed

theorem check_self_intro_returns_name_witness:
  "nfkc sample_lib ex_intro_bob = ex_intro_bob \<and>
   katakana_to_hiragana (normalize_nfkc sample_lib ex_intro_bob) =
     Inr [0x308F, 0x305F, 0x3057, 0x306F, 0x20, 0x307C, 0x3076, 0x20, 0x3067, 0x3059, 0x3002] \<and>
   rx_match jp_pat
     (collapse_spaces
        [0x308F, 0x305F, 0x3057, 0x306F, 0x20, 0x307C, 0x3076, 0x20, 0x3067, 0x3059, 0x3002])
     None = Some (Some [0x307C, 0x3076]) \<and>
   check_self_intro sample_lib ex_intro_bob False =
     Inr (True, msg_intro_ok, Some [0x307C, 0x3076]) \<and>
   check_self_intro sample_lib ex_intro_bob True =
     Inr (True, msg_intro_ok, Some [0x307C, 0x3076])"
proof -
  let ?kana = "[0x308F, 0x305F, 0x3057, 0x306F, 0x20, 0x307C, 0x3076, 0x20, 0x3067, 0x3059,
    0x3002] :: ustring"
  have a: "nfkc sample_lib ex_intro_bob = ex_intro_bob"
    by (simp add: sample_defs ex_intro_bob_def)
  have b: "katakana_to_hiragana (normalize_nfkc sample_lib ex_intro_bob) = Inr ?kana"
    by (simp add: eval_defs sample_defs ex_intro_bob_def)
  have c: "rx_match jp_pat (collapse_spaces ?kana) None = Some (Some [0x307C, 0x3076])"
    by (simp add: eval_defs)
  have d: "[0x307C, 0x3076] \<noteq> ([] :: ustring)"
    by simp
  note th = check_self_intro_returns_name [of sample_lib]
  have "check_self_intro sample_lib ex_intro_bob False =
      Inr (True, msg_intro_ok, Some [0x307C, 0x3076])"
    using th a by blast
  moreover have "check_self_intro sample_lib ex_intro_bob True =
      Inr (True, msg_intro_ok, Some [0x307C, 0x3076])"
    using th b c d by blast
  ultimately show ?thesis
    using a b c by blast
qed

text \<open>
  Claim C5. Without romaji, \<open>ex_intro_no_marker\<close> (no U+306F between pronoun and name)
  fails \<open>check_self_intro\<close> and no name is returned. \<open>ex_intro_no_name\<close> (nothing but a
  space between U+306F and desu) does not fail: after \<open>\s*\<close> has given the space back, the
  group \<open>(.+?)\<close> takes it, the test \<open>if name\<close> holds for the one-space string, and the
  checker passes with the name \<open>" "\<close>. The romanized pattern, with \<open>\s+\<close> on both sides of
  the group, rejects \<open>ex_romaji_no_name\<close>. Each holds given that the library leaves the
  answer unchanged.
\<close>

theorem check_self_intro_blank_name:
  "(nfkc L ex_intro_no_marker = ex_intro_no_marker \<longrightarrow>
      check_self_intro L ex_intro_no_marker False = Inr (False, msg_intro_pattern, None)) \<and>
   (nfkc L ex_intro_no_name = ex_intro_no_name \<longrightarrow>
      check_self_intro L ex_intro_no_name False = Inr (True, msg_intro_ok, Some [0x20])) \<and>
   (nfkc L ex_romaji_no_name = ex_romaji_no_name \<and>
    lower L ex_romaji_no_name = ex_romaji_no_name \<longrightarrow>
      check_self_intro L ex_romaji_no_name True = Inr (False, msg_intro_pattern, None))"
  using intro_example_no_marker [of L] intro_example_no_name [of L]
    intro_example_romaji_no_name [of L]
  by blast

theorem check_self_intro_blank_name_witness:
  "nfkc sample_lib ex_intro_no_marker = ex_intro_no_marker \<and>
   check_self_intro sample_lib ex_intro_no_marker False = Inr (False, msg_intro_pattern, None) \<and>
   nfkc sample_lib ex_intro_no_name = ex_intro_no_name \<and>
   check_self_intro sample_lib ex_intro_no_name False = Inr (True, msg_intro_ok, Some [0x20]) \<and>
   nfkc sample_lib ex_romaji_no_name = ex_romaji_no_name \<and>
   lower sample_lib ex_romaji_no_name = ex_romaji_no_name \<and>
   check_self_intro sample_lib ex_romaji_no_name True = Inr (False, msg_intro_pattern, None)"
proof -
  have a: "nfkc sample_lib ex_intro_no_marker = ex_intro_no_marker"
    by (simp add: sample_defs ex_intro_no_marker_def)
  have b: "nfkc sample_lib ex_intro_no_name = ex_intro_no_name"
    by (simp add: sample_defs ex_intro_no_name_def)
  have c: "nfkc sample_lib ex_romaji_no_name = ex_romaji_no_name"
    by (simp add: sample_defs ex_romaji_no_name_def)
  have d: "lower sample_lib ex_romaji_no_name = ex_romaji_no_name"
    by (simp add: sample_defs ex_romaji_no_name_def)
  show ?thesis
    using a b c d check_self_intro_blank_name [of sample_lib] by blast
qed

text \<open>
  Claim C6. The five vowels separated by spaces and the five vowels written as one
  token both pass \<open>check_vowels\<close> without romaji, given that NFKC leaves the two answers
  unchanged: when exactly one non-empty piece is left after splitting at whitespace, the
  tokens are its characters.
\<close>

theorem check_vowels_accepts_both_forms:
  "(nfkc L ex_vowels_spaced = ex_vowels_spaced \<longrightarrow>
      check_vowels L ex_vowels_spaced False = Inr (True, msg_vowels_ok)) \<and>
   (nfkc L ex_vowels_contiguous = ex_vowels_contiguous \<longrightarrow>
      check_vowels L ex_vowels_contiguous False = Inr (True, msg_vowels_ok)) \<and>
   (\<forall>hira t. filter (\<lambda>t. t \<noteq> []) (re_split_spaces (strip_py hira)) = [t] \<longrightarrow>
      vowel_tokens hira = Inr (map (\<lambda>c. [c]) t))"
proof (intro conjI allI impI)
  assume "nfkc L ex_vowels_spaced = ex_vowels_spaced"
  then show "check_vowels L ex_vowels_spaced False = Inr (True, msg_vowels_ok)"
    by (rule vowels_example_spaced)
next
  assume "nfkc L ex_vowels_contiguous = ex_vowels_contiguous"
  then show "check_vowels L ex_vowels_contiguous False = Inr (True, msg_vowels_ok)"
    by (rule vowels_example_contiguous)
next
  fix hira t
  assume "filter (\<lambda>t. t \<noteq> []) (re_split_spaces (strip_py hira)) = [t]"
  then show "vowel_tokens hira = Inr (map (\<lambda>c. [c]) t)"
    by (simp add: vowel_tokens_def index_py_def)
qed

theorem check_vowels_accepts_both_forms_witness:
  "nfkc sample_lib ex_vowels_spaced = ex_vowels_spaced \<and>
   check_vowels sample_lib ex_vowels_spaced False = Inr (True, msg_vowels_ok) \<and>
   nfkc sample_lib ex_vowels_contiguous = ex_vowels_contiguous \<and>
   check_vowels sample_lib ex_vowels_contiguous False = Inr (True, msg_vowels_ok) \<and>
   filter (\<lambda>t. t \<noteq> []) (re_split_spaces (strip_py ex_vowels_contiguous)) =
     [ex_vowels_contiguous] \<and>
   vowel_tokens ex_vowels_contiguous = Inr target"
proof -
  have a: "nfkc sample_lib ex_vowels_spaced = ex_vowels_spaced"
    by (simp add: sample_defs ex_vowels_spaced_def)
  have b: "nfkc sample_lib ex_vowels_contiguous = ex_vowels_contiguous"
    by (simp add: sample_defs ex_vowels_contiguous_def)
  have c: "filter (\<lambda>t. t \<noteq> []) (re_split_spaces (strip_py ex_vowels_contiguous)) =
      [ex_vowels_contiguous]"
    by (simp add: eval_defs ex_vowels_contiguous_def)
  have d: "map (\<lambda>c. [c]) ex_vowels_contiguous = target"
    by (simp add: ex_vowels_contiguous_def target_def)
  note th = check_vowels_accepts_both_forms [of sample_lib]
  have "vowel_tokens ex_vowels_contiguous = Inr (map (\<lambda>c. [c]) ex_vowels_contiguous)"
    using th c by blast
  then have "vowel_tokens ex_vowels_contiguous = Inr target"
    by (simp only: d)
  then show ?thesis
    using a b c th by blast
qed

text \<open>
  Claim C7. Without romaji, when the tokens of the normalized and folded answer are five
  and differ from \<open>target\<close>, \<open>check_vowels\<close> fails and its message is the hint prefix
  followed by one entry for every position (counted from 1) whose token differs from the
  target, each entry giving the position and the expected character, the entries
  separated by \<open>", "\<close>. For \<open>ex_vowels_swapped\<close>, given that NFKC leaves it unchanged, the
  entries are position 2 with U+3044 and position 3 with U+3046.
\<close>

theorem check_vowels_positional_hint:
  "(\<forall>answer hira tokens.
      katakana_to_hiragana (normalize_nfkc L answer) = Inr hira \<and>
      vowel_tokens hira = Inr tokens \<and> length tokens = 5 \<and> tokens \<noteq> target \<longrightarrow>
      check_vowels L answer False =
        Inr (False, hint_prefix @ join_py hint_sep
          (map (\<lambda>i. str_nat (i + 1) @ hint_nth @ target ! i)
               (filter (\<lambda>i. tokens ! i \<noteq> target ! i) [0..<5])))) \<and>
   (nfkc L ex_vowels_swapped = ex_vowels_swapped \<longrightarrow>
      check_vowels L ex_vowels_swapped False =
        Inr (False, hint_prefix @ [0x32] @ hint_nth @ [0x3044] @ hint_sep @
                    [0x33] @ hint_nth @ [0x3046]))"
proof (intro conjI allI impI)
  fix answer hira tokens
  assume "katakana_to_hiragana (normalize_nfkc L answer) = Inr hira \<and>
      vowel_tokens hira = Inr tokens \<and> length tokens = 5 \<and> tokens \<noteq> target"
  then show "check_vowels L answer False =
        Inr (False, hint_prefix @ join_py hint_sep
          (map (\<lambda>i. str_nat (i + 1) @ hint_nth @ target ! i)
               (filter (\<lambda>i. tokens ! i \<noteq> target ! i) [0..<5])))"
    using vowels_hint_general [of L answer hira tokens] by blast
next
  assume "nfkc L ex_vowels_swapped = ex_vowels_swapped"
  then show "check_vowels L ex_vowels_swapped False =
        Inr (False, hint_prefix @ [0x32] @ hint_nth @ [0x3044] @ hint_sep @
                    [0x33] @ hint_nth @ [0x3046])"
    by (rule vowels_example_swapped)
qed

theorem check_vowels_positional_hint_witness:
  "katakana_to_hiragana (normalize_nfkc sample_lib ex_vowels_swapped) = Inr ex_vowels_swapped \<and>
   vowel_tokens ex_vowels_swapped = Inr [[0x3042], [0x3046], [0x3044], [0x3048], [0x304A]] \<and>
   length [[0x3042], [0x3046], [0x3044], [0x3048], [0x304A :: nat]] = 5 \<and>
   [[0x3042], [0x3046], [0x3044], [0x3048], [0x304A]] \<noteq> target \<and>
   nfkc sample_lib ex_vowels_swapped = ex_vowels_swapped \<and>
   check_vowels sample_lib ex_vowels_swapped False =
     Inr (False, hint_prefix @ [0x32] @ hint_nth @ [0x3044] @ hint_sep @
                 [0x33] @ hint_nth @ [0x3046]) \<and>
   check_vowels sample_lib ex_vowels_swapped False =
     Inr (False, hint_prefix @ join_py hint_sep
       (map (\<lambda>i. str_nat (i + 1) @ hint_nth @ target ! i)
            (filter (\<lambda>i. [[0x3042], [0x3046], [0x3044], [0x3048], [0x304A]] ! i \<noteq> target ! i)
               [0..<5])))"
proof -
  let ?tokens = "[[0x3042], [0x3046], [0x3044], [0x3048], [0x304A]] :: ustring list"
  have a: "katakana_to_hiragana (normalize_nfkc sample_lib ex_vowels_swapped) =
      Inr ex_vowels_swapped"
    by (simp add: eval_defs sample_defs ex_vowels_swapped_def)
  have b: "vowel_tokens ex_vowels_swapped = Inr ?tokens"
    by (simp add: eval_defs ex_vowels_swapped_def)
  have c: "length ?tokens = 5"
    by simp
  have d: "?tokens \<noteq> target"
    by (simp add: target_def)
  have e: "nfkc sample_lib ex_vowels_swapped = ex_vowels_swapped"
    by (simp add: sample_defs ex_vowels_swapped_def)
  note th = check_vowels_positional_hint [of sample_lib]
  have "check_vowels sample_lib ex_vowels_swapped False =
     Inr (False, hint_prefix @ [0x32] @ hint_nth @ [0x3044] @ hint_sep @
                 [0x33] @ hint_nth @ [0x3046])"
    using th e by blast
  moreover have "check_vowels sample_lib ex_vowels_swapped False =
     Inr (False, hint_prefix @ join_py hint_sep
       (map (\<lambda>i. str_nat (i + 1) @ hint_nth @ target ! i)
            (filter (\<lambda>i. ?tokens ! i \<noteq> target ! i) [0..<5])))"
    using th [THEN conjunct1, rule_format, of ex_vowels_swapped ex_vowels_swapped ?tokens]
      a b c d by blast
  ultimately show ?thesis
    using a b c d e by blast
qed

text \<open>
  Claim C8, as amended. \<open>to_hiragana_lower\<close> applied to its own result \<open>y\<close> returns \<open>y\<close>
  again whenever NFKC leaves \<open>y\<close> unchanged, for a library whose lowercasing is
  idempotent and commutes with the kana fold. (The fold itself is idempotent, whatever
  the library.)
\<close>

theorem to_hiragana_lower_idempotent_if_stable:
  assumes idem: "\<And>s. lower L (lower L s) = lower L s"
    and comm: "\<And>s k. katakana_to_hiragana s = Inr k \<Longrightarrow>
                 katakana_to_hiragana (lower L s) = Inr (lower L k)"
    and y: "to_hiragana_lower L x = Inr y"
    and stable: "nfkc L y = y"
  shows "to_hiragana_lower L y = Inr y"
proof -
  obtain k where k: "katakana_to_hiragana (normalize_nfkc L x) = Inr k"
    by (simp add: katakana_to_hiragana_map)
  with y have yk: "y = lower L k"
    by (simp add: to_hiragana_lower_def)
  have "katakana_to_hiragana k = Inr k"
    using k by (rule katakana_to_hiragana_idem)
  then have "katakana_to_hiragana (lower L k) = Inr (lower L k)"
    by (rule comm)
  then show ?thesis
    using stable by (simp add: to_hiragana_lower_def normalize_nfkc_def yk idem)
qed

theorem to_hiragana_lower_idempotent_if_stable_witness:
  "to_hiragana_lower sample_lib ex_greeting_halfwidth = Inr greeting_correct \<and>
   nfkc sample_lib greeting_correct = greeting_correct \<and>
   to_hiragana_lower sample_lib greeting_correct = Inr greeting_correct"
proof -
  have a: "to_hiragana_lower sample_lib ex_greeting_halfwidth = Inr greeting_correct"
    by (simp add: eval_defs sample_defs ex_greeting_halfwidth_def greeting_correct_def)
  have b: "nfkc sample_lib greeting_correct = greeting_correct"
    by (simp add: sample_defs greeting_correct_def)
  have "to_hiragana_lower sample_lib greeting_correct = Inr greeting_correct"
    using sample_lower_idem sample_lower_fold a b
    by (rule to_hiragana_lower_idempotent_if_stable)
  with a b show ?thesis
    by blast
qed

text \<open>
  Claim C8, as stated, fails. For U+0130 U+031B the comparable form is \<open>i\<close> U+0307 U+031B:
  NFKC leaves the input as it is and lowercasing splits U+0130 into \<open>i\<close> and U+0307 in
  front of the horn. NFKC puts the two marks of that result into canonical order, so the
  comparable form of the comparable form is \<open>i\<close> U+031B U+0307.
\<close>

theorem to_hiragana_lower_not_idempotent:
  "to_hiragana_lower sample_lib ex_dotted_I_horn = Inr [0x69, 0x307, 0x31B] \<and>
   to_hiragana_lower sample_lib [0x69, 0x307, 0x31B] = Inr [0x69, 0x31B, 0x307] \<and>
   to_hiragana_lower sample_lib [0x69, 0x307, 0x31B] \<noteq> Inr [0x69, 0x307, 0x31B]"
  by (simp add: eval_defs sample_defs ex_dotted_I_horn_def)

text \<open>
  Claim C9. For every answer and every \<open>allow_romaji\<close>, and whatever strings the
  library returns, each of the three checkers returns a result (no exception leaves it)
  whose message is not empty.
\<close>

theorem checkers_total:
  "(\<exists>ok msg. check_greeting L answer allow_romaji = Inr (ok, msg) \<and> msg \<noteq> []) \<and>
   (\<exists>ok msg name. check_self_intro L answer allow_romaji = Inr (ok, msg, name) \<and> msg \<noteq> []) \<and>
   (\<exists>ok msg. check_vowels L answer allow_romaji = Inr (ok, msg) \<and> msg \<noteq> [])"
  using total_greeting [of L answer allow_romaji] total_self_intro [of L answer allow_romaji]
    total_vowels [of L answer allow_romaji]
  by (intro conjI)

text \<open>
  Claim C10. With romaji allowed, an answer passes \<open>check_greeting\<close> whenever the
  letters \<open>a\<close>..\<open>z\<close> of its lowercased NFKC form spell \<open>konnichiwa\<close>, for a library whose
  lowercasing commutes with the kana fold on that form: the letters survive in the
  comparable form, which is then neither of the two kana strings. The answer
  \<open>ex_greeting_mixed\<close>, which contains the mistaken kana greeting, passes, given that the
  library leaves it unchanged.
\<close>

theorem check_greeting_romaji_passes:
  "(\<forall>answer k.
      katakana_to_hiragana (normalize_nfkc L answer) = Inr k \<and>
      katakana_to_hiragana (lower L (normalize_nfkc L answer)) = Inr (lower L k) \<and>
      sub_non_az (lower L (normalize_nfkc L answer)) = greeting_romaji \<longrightarrow>
      check_greeting L answer True = Inr (True, msg_greeting_ok)) \<and>
   (nfkc L ex_greeting_mixed = ex_greeting_mixed \<and>
    lower L ex_greeting_mixed = ex_greeting_mixed \<longrightarrow>
      check_greeting L ex_greeting_mixed True = Inr (True, msg_greeting_ok))"
proof (intro conjI allI impI)
  fix answer k
  assume "katakana_to_hiragana (normalize_nfkc L answer) = Inr k \<and>
      katakana_to_hiragana (lower L (normalize_nfkc L answer)) = Inr (lower L k) \<and>
      sub_non_az (lower L (normalize_nfkc L answer)) = greeting_romaji"
  then show "check_greeting L answer True = Inr (True, msg_greeting_ok)"
    using romaji_general [of L answer k] by blast
next
  assume "nfkc L ex_greeting_mixed = ex_greeting_mixed \<and>
    lower L ex_greeting_mixed = ex_greeting_mixed"
  then show "check_greeting L ex_greeting_mixed True = Inr (True, msg_greeting_ok)"
    by (simp add: greeting_example_mixed)
qed

theorem check_greeting_romaji_passes_witness:
  "katakana_to_hiragana (normalize_nfkc sample_lib ex_greeting_mixed) = Inr ex_greeting_mixed \<and>
   katakana_to_hiragana (lower sample_lib (normalize_nfkc sample_lib ex_greeting_mixed)) =
     Inr (lower sample_lib ex_greeting_mixed) \<and>
   sub_non_az (lower sample_lib (normalize_nfkc sample_lib ex_greeting_mixed)) =
     greeting_romaji \<and>
   nfkc sample_lib ex_greeting_mixed = ex_greeting_mixed \<and>
   lower sample_lib ex_greeting_mixed = ex_greeting_mixed \<and>
   check_greeting sample_lib ex_greeting_mixed True = Inr (True, msg_greeting_ok)"
proof -
  have a: "katakana_to_hiragana (normalize_nfkc sample_lib ex_greeting_mixed) =
      Inr ex_greeting_mixed"
    by (simp add: eval_defs sample_defs ex_greeting_mixed_def)
  have b: "katakana_to_hiragana (lower sample_lib (normalize_nfkc sample_lib ex_greeting_mixed)) =
      Inr (lower sample_lib ex_greeting_mixed)"
    by (simp add: eval_defs sample_defs ex_greeting_mixed_def)
  have c: "sub_non_az (lower sample_lib (normalize_nfkc sample_lib ex_greeting_mixed)) =
      greeting_romaji"
    by (simp add: eval_defs sample_defs ex_greeting_mixed_def greeting_romaji_def)
  have d: "nfkc sample_lib ex_greeting_mixed = ex_greeting_mixed"
    by (simp add: sample_defs ex_greeting_mixed_def)
  have e: "lower sample_lib ex_greeting_mixed = ex_greeting_mixed"
    by (simp add: sample_defs ex_greeting_mixed_def)
  note th = check_greeting_romaji_passes [of sample_lib]
  have "check_greeting sample_lib ex_greeting_mixed True = Inr (True, msg_greeting_ok)"
    using th [THEN conjunct1, rule_format, of ex_greeting_mixed ex_greeting_mixed] a b c
      th [THEN conjunct2] d e
    by blast
  then show ?thesis
    using a b c d e by blast
qed

end
